theory Spec2Isabelle
  imports Main "HOL-Library.AList"
begin

section \<open>The API client of \<^verbatim>\<open>frontend/src/lib/api.ts\<close>\<close>

text \<open>
  The client wraps an axios instance with two interceptors. The request interceptor
  (lines 78-93) awaits \<^verbatim>\<open>supabase.auth.getSession()\<close> and sets the
  \<^verbatim>\<open>Authorization\<close> header. The response interceptor (lines 96-135) passes
  responses through and, on an error, runs the 401 handler, which shares the module
  variable \<^verbatim>\<open>isHandlingUnauthorized\<close> (line 9) with every other invocation.

  JavaScript runs the handlers on one thread and interleaves them only where they
  await. The model is therefore an event system: every event runs one uninterrupted
  piece of code on the shared state, and an async function is cut at its
  \<^verbatim>\<open>await\<close> into the piece before and the piece after. Everything the code does
  to the outside (calling sign-out, assigning \<^verbatim>\<open>window.location.href\<close>,
  \<^verbatim>\<open>console.error\<close>, transmitting a request, settling the caller's
  promise) is recorded in the state.
\<close>

subsection \<open>Data\<close>

type_synonym rid = nat  \<comment> \<open>names one call of the client, hence one caller's promise\<close>

text \<open>An axios response, and the error object the handler inspects with
  \<^verbatim>\<open>error.response?.status\<close>: the response may be absent.\<close>

record http_response =
  status :: int
  payload :: string

record err =
  response :: "http_response option"
  message :: string

text \<open>\<^verbatim>\<open>window.location\<close>: the two fields the handler reads. Both are
  serialised URL components, hence ASCII strings.\<close>

record location =
  pathname :: string
  search :: string

text \<open>The request descriptor (axios config), as far as this source sets it. Headers are
  a list of names with their values, read with \<open>map_of\<close>; assigning a header replaces the
  value of an existing name or adds the name.\<close>

record config =
  req_method :: string  \<comment> \<open>the field \<^verbatim>\<open>method\<close>\<close>
  url :: string
  headers :: "(string \<times> string) list"
  body :: "string option"

record session =
  access_token :: string

text \<open>How \<^verbatim>\<open>supabase.auth.getSession()\<close> and \<^verbatim>\<open>supabase.auth.signOut()\<close>
  settle. Both are external; a promise either resolves or rejects, and the rejection
  value is an error object.\<close>

datatype lookup = LookupRejected err | LookupResolved "session option"

datatype signout = SignOutResolved | SignOutRejected err

datatype outcome = Fulfilled http_response | Rejected err

text \<open>A handler suspended at \<^verbatim>\<open>await supabase.auth.signOut()\<close> (line 112): its
  locals are the error it was called with and the \<^verbatim>\<open>pathname\<close> of line 100.\<close>

record task =
  t_rid :: rid
  t_error :: err
  t_pathname :: string

record client_state =
  isHandlingUnauthorized :: bool
  location :: location
  now :: nat  \<comment> \<open>the clock, in milliseconds\<close>
  awaiting :: "task list"  \<comment> \<open>handlers waiting for their sign-out call to settle\<close>
  timers :: "nat list"  \<comment> \<open>due times of the callbacks given to \<^verbatim>\<open>setTimeout\<close>\<close>
  signOutCalls :: nat  \<comment> \<open>how often \<^verbatim>\<open>supabase.auth.signOut()\<close> was called\<close>
  redirects :: "string list"  \<comment> \<open>values assigned to \<^verbatim>\<open>window.location.href\<close>\<close>
  logged :: "(string \<times> err) list"  \<comment> \<open>arguments of \<^verbatim>\<open>console.error\<close>\<close>
  transmitted :: "(rid \<times> config) list"
    \<comment> \<open>descriptors the request interceptor returned, which axios goes on to send\<close>
  settled :: "(rid \<times> outcome) list"  \<comment> \<open>what each caller's promise settled with\<close>

subsection \<open>Configuration and string functions\<close>

definition PUBLIC_PATHS :: "string list" where
  "PUBLIC_PATHS = [''/login'', ''/signup'', ''/forgot-password'', ''/reset-password'']"

text \<open>\<^verbatim>\<open>s.startsWith(p)\<close>\<close>

definition startsWith :: "string \<Rightarrow> string \<Rightarrow> bool" where
  "startsWith s p = (take (length p) s = p)"

text \<open>\<^verbatim>\<open>PUBLIC_PATHS.some((p) => pathname.startsWith(p))\<close> (line 104)\<close>

definition on_public_path :: "string \<Rightarrow> bool" where
  "on_public_path path = list_ex (\<lambda>p. startsWith path p) PUBLIC_PATHS"

text \<open>\<^verbatim>\<open>window.location.pathname || '/'\<close> (line 100): the empty string is falsy.\<close>

definition current_pathname :: "location \<Rightarrow> string" where
  "current_pathname loc = (if pathname loc = [] then ''/'' else pathname loc)"

text \<open>\<^verbatim>\<open>encodeURIComponent\<close> on a string given as its UTF-8 bytes: the unreserved
  characters stay, every other byte becomes \<^verbatim>\<open>%XX\<close> with upper-case digits. (On a
  lone surrogate JavaScript throws; the components of \<^verbatim>\<open>window.location\<close>
  contain none.)\<close>

definition uriUnreserved :: "char \<Rightarrow> bool" where
  "uriUnreserved c =
     (c \<in> set (''ABCDEFGHIJKLMNOPQRSTUVWXYZabcdefghijklmnopqrstuvwxyz0123456789-_.!~*()''
               @ [CHR 0x27]))"

definition hexDigit :: "nat \<Rightarrow> char" where
  "hexDigit n = ''0123456789ABCDEF'' ! (n mod 16)"

definition percentEncode :: "char \<Rightarrow> string" where
  "percentEncode c =
     [CHR ''%'', hexDigit ((of_char c :: nat) div 16), hexDigit ((of_char c :: nat) mod 16)]"

definition encodeURIComponent :: "string \<Rightarrow> string" where
  "encodeURIComponent s =
     concat (map (\<lambda>c. if uriUnreserved c then [c] else percentEncode c) s)"

subsection \<open>The request interceptor (lines 78-93)\<close>

text \<open>The function runs once \<^verbatim>\<open>getSession()\<close> has settled. A rejection leaves the
  async function through the \<^verbatim>\<open>await\<close>; \<^verbatim>\<open>session?.access_token\<close> is truthy
  when there is a session whose token is not the empty string. (The second function
  registered with the interceptor, lines 90-92, passes a rejection on as it is; with this
  single interceptor nothing before it in the chain rejects.)\<close>

definition request_interceptor :: "lookup \<Rightarrow> config \<Rightarrow> err + config" where
  "request_interceptor l cfg =
     (case l of
        LookupRejected e \<Rightarrow> Inl e
      | LookupResolved None \<Rightarrow> Inr cfg
      | LookupResolved (Some ss) \<Rightarrow>
          if access_token ss \<noteq> []
          then Inr (cfg\<lparr>headers :=
                 AList.update ''Authorization'' (''Bearer '' @ access_token ss) (headers cfg)\<rparr>)
          else Inr cfg)"

subsection \<open>The response interceptor (lines 96-135)\<close>

definition is_unauthorized :: "err \<Rightarrow> bool" where
  "is_unauthorized e = (case response e of None \<Rightarrow> False | Some r \<Rightarrow> status r = 401)"

text \<open>\<^verbatim>\<open>return Promise.reject(error)\<close>: the caller's promise rejects with the
  handler's argument.\<close>

definition reject :: "rid \<Rightarrow> err \<Rightarrow> client_state \<Rightarrow> client_state" where
  "reject r e s = s\<lparr>settled := settled s @ [(r, Rejected e)]\<rparr>"

text \<open>The handler from its entry to its first \<^verbatim>\<open>await\<close> or to its return,
  whichever comes first (lines 99-112 and 133).\<close>

definition on_response_error :: "rid \<Rightarrow> err \<Rightarrow> client_state \<Rightarrow> client_state" where
  "on_response_error r e s =
     (if is_unauthorized e then
        (let path = current_pathname (location s) in
         if on_public_path path then reject r e s
         else if \<not> isHandlingUnauthorized s then
           s\<lparr>isHandlingUnauthorized := True,
             signOutCalls := Suc (signOutCalls s),
             awaiting := awaiting s @ [\<lparr>t_rid = r, t_error = e, t_pathname = path\<rparr>]\<rparr>
         else reject r e s)
      else reject r e s)"

text \<open>The rest of the handler, run when the awaited sign-out has settled
  (lines 113-133): the \<^verbatim>\<open>catch\<close> logs a rejection, then the redirect is assigned,
  the reset is given to \<^verbatim>\<open>setTimeout\<close> with a delay of 1000, and the handler returns
  the rejection. The query string is read here, from the location as it is now (line 122).
  Assigning \<^verbatim>\<open>window.location.href\<close> starts a navigation that replaces the page;
  until it does, \<^verbatim>\<open>window.location\<close> reads as before, so the assignment is
  recorded and \<open>location\<close> stays.\<close>

definition resume_after_signOut :: "task \<Rightarrow> signout \<Rightarrow> client_state \<Rightarrow> client_state" where
  "resume_after_signOut t out s =
     (let s1 = (case out of
                  SignOutResolved \<Rightarrow> s
                | SignOutRejected x \<Rightarrow>
                    s\<lparr>logged := logged s @ [(''Error signing out on 401 handler'', x)]\<rparr>);
          returnUrl = encodeURIComponent (t_pathname t @ search (location s1));
          s2 = s1\<lparr>redirects := redirects s1 @ [''/login?returnUrl='' @ returnUrl]\<rparr>;
          s3 = s2\<lparr>timers := timers s2 @ [now s2 + 1000]\<rparr>
      in reject (t_rid t) (t_error t) s3)"

subsection \<open>Events\<close>

text \<open>
  \<^item> \<open>Augment r cfg l\<close>: call \<open>r\<close> reaches the request interceptor with descriptor
    \<open>cfg\<close> and the session lookup settles with \<open>l\<close>. A descriptor that comes out
    goes on to be sent; the state records it as the interceptor returned it, and what
    axios and the transport make of it afterwards is not part of this source. A rejection
    skips the transport and, as every rejection in the axios promise chain, arrives at the
    response interceptor's error handler.
  \<^item> \<open>Success r resp\<close>, \<open>Failure r e\<close>: the transport settles call \<open>r\<close>.
  \<^item> \<open>SignOutSettles r out\<close>: the sign-out awaited by the handler of call \<open>r\<close>
    settles.
  \<^item> \<open>Elapse d\<close>: \<open>d\<close> milliseconds pass.
  \<^item> \<open>TimerFires\<close>: the event loop runs the oldest timer callback, which needs its
    due time to be reached.
  \<^item> \<open>Navigate loc\<close>: the application changes \<^verbatim>\<open>window.location\<close>.

  An event that cannot happen in a state (a sign-out settling that nobody awaits, a
  timer that is not due) leaves the state as it is.
\<close>

datatype event =
    Augment rid config lookup
  | Success rid http_response
  | Failure rid err
  | SignOutSettles rid signout
  | Elapse nat
  | TimerFires
  | Navigate location

fun step :: "event \<Rightarrow> client_state \<Rightarrow> client_state" where
  "step (Augment r cfg l) s =
     (case request_interceptor l cfg of
        Inl e \<Rightarrow> on_response_error r e s
      | Inr cfg' \<Rightarrow> s\<lparr>transmitted := transmitted s @ [(r, cfg')]\<rparr>)"
| "step (Success r resp) s = s\<lparr>settled := settled s @ [(r, Fulfilled resp)]\<rparr>"
| "step (Failure r e) s = on_response_error r e s"
| "step (SignOutSettles r out) s =
     (case find (\<lambda>t. t_rid t = r) (awaiting s) of
        None \<Rightarrow> s
      | Some t \<Rightarrow> resume_after_signOut t out (s\<lparr>awaiting := remove1 t (awaiting s)\<rparr>))"
| "step (Elapse d) s = s\<lparr>now := now s + d\<rparr>"
| "step TimerFires s =
     (case timers s of
        [] \<Rightarrow> s
      | due # rest \<Rightarrow>
          if due \<le> now s then s\<lparr>isHandlingUnauthorized := False, timers := rest\<rparr> else s)"
| "step (Navigate loc) s = s\<lparr>location := loc\<rparr>"

fun run :: "event list \<Rightarrow> client_state \<Rightarrow> client_state" where
  "run [] s = s"
| "run (ev # evs) s = run evs (step ev s)"

text \<open>The state of a freshly loaded page at location \<open>loc\<close>.\<close>

definition init :: "location \<Rightarrow> client_state" where
  "init loc =
     \<lparr>isHandlingUnauthorized = False, location = loc, now = 0, awaiting = [], timers = [],
      signOutCalls = 0, redirects = [], logged = [], transmitted = [], settled = []\<rparr>"

subsection \<open>The calls of the client (lines 138-217)\<close>

text \<open>Every method hands one descriptor to the axios instance. The headers with which
  it reaches the request interceptor are the instance's: the headers axios supplies by
  itself (its library defaults, such as \<^verbatim>\<open>Accept\<close>; they are not in this source and
  are the parameter \<open>dflt\<close>) with the \<^verbatim>\<open>Content-Type\<close> given to
  \<^verbatim>\<open>axios.create\<close> (lines 70-75) set on top. No method passes headers of its own.
  Request data is kept as its JSON text.\<close>

datatype platform = Github | Discord | Slack | Discourse

fun platform_name :: "platform \<Rightarrow> string" where
  "platform_name Github = ''github''"
| "platform_name Discord = ''discord''"
| "platform_name Slack = ''slack''"
| "platform_name Discourse = ''discourse''"

datatype operation =
    CreateIntegration string
  | GetIntegrations
  | GetIntegration string
  | GetIntegrationStatus platform
  | UpdateIntegration string string
  | DeleteIntegration string
  | HealthCheck

definition instance_headers :: "(string \<times> string) list \<Rightarrow> (string \<times> string) list" where
  "instance_headers dflt = AList.update ''Content-Type'' ''application/json'' dflt"

fun request_config :: "(string \<times> string) list \<Rightarrow> operation \<Rightarrow> config" where
  "request_config dflt (CreateIntegration d) =
     \<lparr>req_method = ''post'', url = ''/v1/integrations/'', headers = instance_headers dflt,
      body = Some d\<rparr>"
| "request_config dflt GetIntegrations =
     \<lparr>req_method = ''get'', url = ''/v1/integrations/'', headers = instance_headers dflt,
      body = None\<rparr>"
| "request_config dflt (GetIntegration i) =
     \<lparr>req_method = ''get'', url = ''/v1/integrations/'' @ i, headers = instance_headers dflt,
      body = None\<rparr>"
| "request_config dflt (GetIntegrationStatus pl) =
     \<lparr>req_method = ''get'', url = ''/v1/integrations/status/'' @ platform_name pl,
      headers = instance_headers dflt, body = None\<rparr>"
| "request_config dflt (UpdateIntegration i d) =
     \<lparr>req_method = ''put'', url = ''/v1/integrations/'' @ i, headers = instance_headers dflt,
      body = Some d\<rparr>"
| "request_config dflt (DeleteIntegration i) =
     \<lparr>req_method = ''delete'', url = ''/v1/integrations/'' @ i,
      headers = instance_headers dflt, body = None\<rparr>"
| "request_config dflt HealthCheck =
     \<lparr>req_method = ''get'', url = ''/v1/health'', headers = instance_headers dflt,
      body = None\<rparr>"

subsection \<open>Vocabulary of the properties\<close>

text \<open>The handler called with \<open>e\<close> in state \<open>s\<close> enters the recovery branch
  (line 110) exactly when the three tests of lines 99, 104 and 109 let it through.\<close>

definition starts_recovery :: "err \<Rightarrow> client_state \<Rightarrow> bool" where
  "starts_recovery e s =
     (is_unauthorized e \<and> \<not> on_public_path (current_pathname (location s))
      \<and> \<not> isHandlingUnauthorized s)"

text \<open>An event that calls the error handler with an error of status 401.\<close>

fun fails_unauthorized :: "event \<Rightarrow> bool" where
  "fails_unauthorized (Failure r e) = is_unauthorized e"
| "fails_unauthorized (Augment r cfg (LookupRejected e)) = is_unauthorized e"
| "fails_unauthorized ev = False"

text \<open>The events of one burst of failures: the reset timer has not fired, and the
  page stays off the public paths.\<close>

fun burst_event :: "event \<Rightarrow> bool" where
  "burst_event TimerFires = False"
| "burst_event (Navigate loc) = (\<not> on_public_path (current_pathname loc))"
| "burst_event ev = True"

text \<open>No recovery is under way and the page is off the public paths.\<close>

definition idle :: "client_state \<Rightarrow> bool" where
  "idle s =
     (\<not> isHandlingUnauthorized s \<and> awaiting s = []
      \<and> \<not> on_public_path (current_pathname (location s)))"

text \<open>The events of call \<open>r\<close>, and what the caller of \<open>r\<close> has received so far.\<close>

fun about :: "rid \<Rightarrow> event \<Rightarrow> bool" where
  "about r (Augment r' cfg l) = (r' = r)"
| "about r (Success r' resp) = (r' = r)"
| "about r (Failure r' e) = (r' = r)"
| "about r (SignOutSettles r' out) = (r' = r)"
| "about r ev = False"

definition delivered :: "rid \<Rightarrow> client_state \<Rightarrow> outcome list" where
  "delivered r s = map snd (filter (\<lambda>x. fst x = r) (settled s))"

text \<open>The descriptors of call \<open>r\<close> handed to the transport so far.\<close>

definition sent :: "rid \<Rightarrow> client_state \<Rightarrow> config list" where
  "sent r s = map snd (filter (\<lambda>x. fst x = r) (transmitted s))"

text \<open>The event in which the sign-out awaited by the handler of call \<open>r\<close> settles.\<close>

fun settles :: "rid \<Rightarrow> event \<Rightarrow> bool" where
  "settles r (SignOutSettles r' out) = (r' = r)"
| "settles r ev = False"

text \<open>Recoveries under way: handlers awaiting their sign-out, and resets waiting for
  their timer.\<close>

definition in_flight :: "client_state \<Rightarrow> nat" where
  "in_flight s = length (awaiting s) + length (timers s)"

text \<open>An error carrying a response with the given status.\<close>

definition http_error :: "int \<Rightarrow> err" where
  "http_error code = \<lparr>response = Some \<lparr>status = code, payload = []\<rparr>, message = []\<rparr>"

text \<open>An example of the headers axios supplies by itself.\<close>

definition accept_default :: "(string \<times> string) list" where
  "accept_default = [(''Accept'', ''application/json, text/plain, */*'')]"

text \<open>A location with an empty query string.\<close>

definition at_path :: "string \<Rightarrow> location" where
  "at_path p = \<lparr>pathname = p, search = []\<rparr>"

section \<open>Facts about the pieces\<close>

lemmas model_defs =
  init_def http_error_def at_path_def on_response_error_def is_unauthorized_def
  current_pathname_def on_public_path_def PUBLIC_PATHS_def startsWith_def
  resume_after_signOut_def reject_def encodeURIComponent_def uriUnreserved_def
  percentEncode_def hexDigit_def request_interceptor_def starts_recovery_def idle_def
  delivered_def sent_def instance_headers_def accept_default_def in_flight_def Let_def

lemma startsWith_iff: "startsWith s p \<longleftrightarrow> (\<exists>t. s = p @ t)"
proof
  assume "startsWith s p"
  then have "s = p @ drop (length p) s"
    unfolding startsWith_def by (metis append_take_drop_id)
  then show "\<exists>t. s = p @ t" ..
next
  assume "\<exists>t. s = p @ t"
  then show "startsWith s p" by (auto simp: startsWith_def)
qed

lemma on_public_path_iff:
  "on_public_path path \<longleftrightarrow> (\<exists>p\<in>set PUBLIC_PATHS. \<exists>t. path = p @ t)"
  by (simp add: on_public_path_def list_ex_iff startsWith_iff)

lemma handler_immediate:
  "\<not> starts_recovery e s \<Longrightarrow> on_response_error r e s = reject r e s"
  by (auto simp: starts_recovery_def on_response_error_def Let_def)

lemma handler_suspends:
  "starts_recovery e s \<Longrightarrow>
   on_response_error r e s =
     s\<lparr>isHandlingUnauthorized := True, signOutCalls := Suc (signOutCalls s),
       awaiting := awaiting s @
         [\<lparr>t_rid = r, t_error = e, t_pathname = current_pathname (location s)\<rparr>]\<rparr>"
  by (simp add: starts_recovery_def on_response_error_def Let_def)

lemma resume_fields:
  "settled (resume_after_signOut t out s) = settled s @ [(t_rid t, Rejected (t_error t))]"
  "redirects (resume_after_signOut t out s) =
     redirects s @ [''/login?returnUrl='' @ encodeURIComponent (t_pathname t @ search (location s))]"
  "timers (resume_after_signOut t out s) = timers s @ [now s + 1000]"
  "isHandlingUnauthorized (resume_after_signOut t out s) = isHandlingUnauthorized s"
  "awaiting (resume_after_signOut t out s) = awaiting s"
  "signOutCalls (resume_after_signOut t out s) = signOutCalls s"
  "location (resume_after_signOut t out s) = location s"
  "now (resume_after_signOut t out s) = now s"
  "transmitted (resume_after_signOut t out s) = transmitted s"
  by (simp_all add: resume_after_signOut_def reject_def Let_def split: signout.split)

lemma resume_logged:
  "logged (resume_after_signOut t SignOutResolved s) = logged s"
  "logged (resume_after_signOut t (SignOutRejected x) s) =
     logged s @ [(''Error signing out on 401 handler'', x)]"
  by (simp_all add: resume_after_signOut_def reject_def Let_def)

lemma find_awaiting:
  "find P ts = Some t \<Longrightarrow> P t \<and> t \<in> set ts \<and> Suc (length (remove1 t ts)) = length ts"
proof -
  assume f: "find P ts = Some t"
  then have m: "P t" "t \<in> set ts" by (auto simp: find_Some_iff)
  then have "0 < length ts" by (cases ts) auto
  with m show ?thesis by (simp add: length_remove1)
qed

lemma find_remove1_other: "\<not> P t \<Longrightarrow> find P (remove1 t ts) = find P ts"
  by (induction ts) auto

lemma find_append_other: "\<not> P t \<Longrightarrow> find P (ts @ [t]) = find P ts"
  by (induction ts) auto

lemma find_append_new: "find P ts = None \<Longrightarrow> P t \<Longrightarrow> find P (ts @ [t]) = Some t"
  by (induction ts) (auto split: if_splits)

section \<open>One step\<close>

lemma step_balance:
  "length (awaiting (step ev s)) + length (redirects (step ev s)) + signOutCalls s =
   length (awaiting s) + length (redirects s) + signOutCalls (step ev s)"
proof (cases ev)
  case (Augment r cfg l)
  show ?thesis
  proof (cases "request_interceptor l cfg")
    case (Inl e)
    then show ?thesis using Augment
      by (cases "starts_recovery e s") (simp_all add: handler_immediate handler_suspends reject_def)
  next
    case (Inr c)
    then show ?thesis using Augment by simp
  qed
next
  case (Failure r e)
  then show ?thesis
    by (cases "starts_recovery e s") (simp_all add: handler_immediate handler_suspends reject_def)
next
  case (SignOutSettles r out)
  show ?thesis
  proof (cases "find (\<lambda>t. t_rid t = r) (awaiting s)")
    case None
    then show ?thesis using SignOutSettles by simp
  next
    case (Some t)
    from find_awaiting[OF Some] have "Suc (length (remove1 t (awaiting s))) = length (awaiting s)"
      by simp
    then show ?thesis using SignOutSettles Some by (simp add: resume_fields)
  qed
next
  case TimerFires
  then show ?thesis by (simp split: list.split)
qed simp_all

lemma step_redirects_grow: "length (redirects s) \<le> length (redirects (step ev s))"
proof (cases ev)
  case (Augment r cfg l)
  show ?thesis
  proof (cases "request_interceptor l cfg")
    case (Inl e)
    then show ?thesis using Augment
      by (cases "starts_recovery e s") (simp_all add: handler_immediate handler_suspends reject_def)
  next
    case (Inr c)
    then show ?thesis using Augment by simp
  qed
next
  case (Failure r e)
  then show ?thesis
    by (cases "starts_recovery e s") (simp_all add: handler_immediate handler_suspends reject_def)
next
  case (SignOutSettles r out)
  then show ?thesis by (simp add: resume_fields split: option.split)
next
  case TimerFires
  then show ?thesis by (simp split: list.split)
qed simp_all

lemma step_flag_kept:
  assumes "isHandlingUnauthorized s" "ev \<noteq> TimerFires"
  shows "isHandlingUnauthorized (step ev s) \<and> signOutCalls (step ev s) = signOutCalls s"
proof (cases ev)
  case (Augment r cfg l)
  show ?thesis
  proof (cases "request_interceptor l cfg")
    case (Inl e)
    with assms Augment show ?thesis
      by (simp add: handler_immediate starts_recovery_def reject_def)
  next
    case (Inr c)
    with assms Augment show ?thesis by simp
  qed
next
  case (Failure r e)
  with assms show ?thesis by (simp add: handler_immediate starts_recovery_def reject_def)
next
  case (SignOutSettles r out)
  with assms show ?thesis by (simp add: resume_fields split: option.split)
qed (use assms in simp_all)

lemma step_idle:
  assumes "idle s" "burst_event ev" "\<not> fails_unauthorized ev"
  shows "idle (step ev s) \<and> signOutCalls (step ev s) = signOutCalls s"
proof (cases ev)
  case (Augment r cfg l)
  show ?thesis
  proof (cases l)
    case (LookupRejected e)
    with assms Augment show ?thesis
      by (simp add: request_interceptor_def handler_immediate starts_recovery_def reject_def idle_def)
  next
    case (LookupResolved so)
    with assms Augment show ?thesis
      by (simp add: request_interceptor_def idle_def split: option.split)
  qed
next
  case (Failure r e)
  with assms show ?thesis
    by (simp add: handler_immediate starts_recovery_def reject_def idle_def)
next
  case (SignOutSettles r out)
  with assms show ?thesis by (simp add: idle_def)
next
  case TimerFires
  with assms show ?thesis by simp
qed (use assms in \<open>simp_all add: idle_def\<close>)

lemma step_first:
  assumes "idle s" "fails_unauthorized ev"
  shows "isHandlingUnauthorized (step ev s) \<and> signOutCalls (step ev s) = Suc (signOutCalls s)"
proof -
  have h: "is_unauthorized e \<Longrightarrow> starts_recovery e s" for e
    using assms(1) by (simp add: idle_def starts_recovery_def)
  show ?thesis
  proof (cases ev)
    case (Augment r cfg l)
    with assms(2) obtain e where "l = LookupRejected e" "is_unauthorized e"
      by (cases l) simp_all
    with Augment h[of e] show ?thesis
      by (simp add: request_interceptor_def handler_suspends)
  next
    case (Failure r e)
    with assms(2) h[of e] show ?thesis by (simp add: handler_suspends)
  qed (use assms(2) in simp_all)
qed

text \<open>An event of another call neither settles the caller of \<open>r\<close> nor touches the
  suspended handler of \<open>r\<close>.\<close>

lemma step_other_call:
  assumes "\<not> about r ev"
  shows "delivered r (step ev s) = delivered r s \<and>
         find (\<lambda>t. t_rid t = r) (awaiting (step ev s)) = find (\<lambda>t. t_rid t = r) (awaiting s)"
proof (cases ev)
  case (Augment r' cfg l)
  with assms have ne: "r' \<noteq> r" by simp
  show ?thesis
  proof (cases "request_interceptor l cfg")
    case (Inl e)
    with ne Augment show ?thesis
      by (cases "starts_recovery e s")
         (simp_all add: handler_immediate handler_suspends reject_def delivered_def
            find_append_other)
  next
    case (Inr c)
    with Augment show ?thesis by (simp add: delivered_def)
  qed
next
  case (Success r' resp)
  with assms show ?thesis by (simp add: delivered_def)
next
  case (Failure r' e)
  with assms have ne: "r' \<noteq> r" by simp
  with Failure show ?thesis
    by (cases "starts_recovery e s")
       (simp_all add: handler_immediate handler_suspends reject_def delivered_def
          find_append_other)
next
  case (SignOutSettles r' out)
  with assms have ne: "r' \<noteq> r" by simp
  show ?thesis
  proof (cases "find (\<lambda>t. t_rid t = r') (awaiting s)")
    case None
    with SignOutSettles show ?thesis by simp
  next
    case (Some t)
    from find_awaiting[OF Some] have "t_rid t = r'" by simp
    with ne have "t_rid t \<noteq> r" by simp
    with SignOutSettles Some show ?thesis
      by (simp add: resume_fields delivered_def find_remove1_other)
  qed
next
  case TimerFires
  then show ?thesis by (simp add: delivered_def split: list.split)
qed (simp_all add: delivered_def)

lemma handler_transmits_nothing: "transmitted (on_response_error r e s) = transmitted s"
  by (simp add: on_response_error_def reject_def Let_def)

lemma step_other_call_sent:
  assumes "\<not> about r ev"
  shows "sent r (step ev s) = sent r s"
proof (cases ev)
  case (Augment r' cfg l)
  with assms have "r' \<noteq> r" by simp
  with Augment show ?thesis
    by (cases "request_interceptor l cfg") (simp_all add: sent_def handler_transmits_nothing)
next
  case (Failure r' e)
  then show ?thesis by (simp add: sent_def handler_transmits_nothing)
next
  case (SignOutSettles r' out)
  then show ?thesis by (simp add: sent_def resume_fields split: option.split)
next
  case TimerFires
  then show ?thesis by (simp add: sent_def split: list.split)
qed (simp_all add: sent_def)

text \<open>The flag is set exactly when one recovery is under way, and there is never more
  than one.\<close>

lemma step_in_flight:
  assumes "in_flight s = (if isHandlingUnauthorized s then 1 else 0)"
  shows "in_flight (step ev s) = (if isHandlingUnauthorized (step ev s) then 1 else 0)"
proof (cases ev)
  case (Augment r cfg l)
  show ?thesis
  proof (cases "request_interceptor l cfg")
    case (Inl e)
    with assms Augment show ?thesis
      by (cases "starts_recovery e s")
         (simp_all add: handler_immediate handler_suspends reject_def in_flight_def
            starts_recovery_def)
  next
    case (Inr c)
    with assms Augment show ?thesis by (simp add: in_flight_def)
  qed
next
  case (Success r resp)
  with assms show ?thesis by (simp add: in_flight_def)
next
  case (Failure r e)
  with assms show ?thesis
    by (cases "starts_recovery e s")
       (simp_all add: handler_immediate handler_suspends reject_def in_flight_def
          starts_recovery_def)
next
  case (SignOutSettles r out)
  show ?thesis
  proof (cases "find (\<lambda>t. t_rid t = r) (awaiting s)")
    case None
    with assms SignOutSettles show ?thesis by simp
  next
    case (Some t)
    from find_awaiting[OF Some]
    have len: "Suc (length (remove1 t (awaiting s))) = length (awaiting s)" by simp
    with assms have flag: "isHandlingUnauthorized s"
      by (cases "isHandlingUnauthorized s") (simp_all add: in_flight_def)
    with assms have "length (awaiting s) + length (timers s) = 1"
      by (simp add: in_flight_def)
    with len have "length (remove1 t (awaiting s)) = 0" "length (timers s) = 0"
      by linarith+
    then have "remove1 t (awaiting s) = []" "timers s = []" by simp_all
    with flag SignOutSettles Some show ?thesis
      by (simp add: resume_fields in_flight_def)
  qed
next
  case (Elapse d)
  with assms show ?thesis by (simp add: in_flight_def)
next
  case TimerFires
  show ?thesis
  proof (cases "timers s")
    case Nil
    with assms TimerFires show ?thesis by simp
  next
    case (Cons due rest)
    with assms have "isHandlingUnauthorized s"
      by (cases "isHandlingUnauthorized s") (simp_all add: in_flight_def)
    with assms Cons TimerFires show ?thesis by (simp add: in_flight_def)
  qed
next
  case (Navigate loc)
  with assms show ?thesis by (simp add: in_flight_def)
qed

section \<open>Runs\<close>

lemma run_in_flight:
  "in_flight s = (if isHandlingUnauthorized s then 1 else 0) \<Longrightarrow>
   in_flight (run evs s) = (if isHandlingUnauthorized (run evs s) then 1 else 0)"
proof (induction evs arbitrary: s)
  case Nil
  then show ?case by simp
next
  case (Cons ev evs)
  from Cons.IH[OF step_in_flight[OF Cons.prems, of ev]] show ?case by simp
qed

lemma run_append: "run (evs @ evs') s = run evs' (run evs s)"
  by (induction evs arbitrary: s) simp_all

lemma run_balance:
  "length (awaiting (run evs s)) + length (redirects (run evs s)) + signOutCalls s =
   length (awaiting s) + length (redirects s) + signOutCalls (run evs s)"
proof (induction evs arbitrary: s)
  case Nil
  show ?case by simp
next
  case (Cons ev evs)
  from Cons[of "step ev s"] step_balance[of ev s] show ?case by simp
qed

lemma run_redirects_grow: "length (redirects s) \<le> length (redirects (run evs s))"
proof (induction evs arbitrary: s)
  case Nil
  show ?case by simp
next
  case (Cons ev evs)
  from Cons[of "step ev s"] step_redirects_grow[of s ev] show ?case by simp
qed

lemma run_flag_kept:
  "isHandlingUnauthorized s \<Longrightarrow> \<forall>ev\<in>set evs. burst_event ev \<Longrightarrow>
   signOutCalls (run evs s) = signOutCalls s"
proof (induction evs arbitrary: s)
  case Nil
  show ?case by simp
next
  case (Cons ev evs)
  from Cons.prems have "ev \<noteq> TimerFires" by auto
  with Cons.prems have "isHandlingUnauthorized (step ev s)" "signOutCalls (step ev s) = signOutCalls s"
    using step_flag_kept[of s ev] by simp_all
  with Cons.IH[of "step ev s"] Cons.prems show ?case by simp
qed

lemma burst_calls_once:
  "idle s \<Longrightarrow> \<forall>ev\<in>set evs. burst_event ev \<Longrightarrow> \<exists>ev\<in>set evs. fails_unauthorized ev \<Longrightarrow>
   signOutCalls (run evs s) = Suc (signOutCalls s)"
proof (induction evs arbitrary: s)
  case Nil
  then show ?case by simp
next
  case (Cons ev evs)
  show ?case
  proof (cases "fails_unauthorized ev")
    case True
    with Cons.prems step_first[of s ev] run_flag_kept[of "step ev s" evs] show ?thesis by simp
  next
    case False
    with Cons.prems step_idle[of s ev] Cons.IH[of "step ev s"] show ?thesis by simp
  qed
qed

lemma run_other_calls:
  "\<forall>ev\<in>set evs. \<not> about r ev \<Longrightarrow>
   delivered r (run evs s) = delivered r s \<and>
   find (\<lambda>t. t_rid t = r) (awaiting (run evs s)) = find (\<lambda>t. t_rid t = r) (awaiting s)"
proof (induction evs arbitrary: s)
  case Nil
  show ?case by simp
next
  case (Cons ev evs)
  from Cons.prems have "\<not> about r ev" by simp
  from step_other_call[OF this, of s] Cons.IH[of "step ev s"] Cons.prems show ?case by simp
qed

lemma run_other_calls_sent:
  "\<forall>ev\<in>set evs. \<not> about r ev \<Longrightarrow> sent r (run evs s) = sent r s"
proof (induction evs arbitrary: s)
  case Nil
  show ?case by simp
next
  case (Cons ev evs)
  from Cons.prems have "\<not> about r ev" by simp
  from step_other_call_sent[OF this, of s] Cons.IH[of "step ev s"] Cons.prems
  show ?case by simp
qed

text \<open>The handler of call \<open>r\<close> from its call to its end, with the events of other calls
  in between: the sign-out settles only if this handler awaits one.\<close>

lemma handler_runs_to_end:
  assumes "find (\<lambda>t. t_rid t = r) (awaiting s) = None"
    and "\<forall>ev\<in>set evs. \<not> about r ev"
  shows "delivered r
           (run (evs @ (if starts_recovery e s then [SignOutSettles r out] else []))
              (on_response_error r e s)) = delivered r s @ [Rejected e]
       \<and> sent r
           (run (evs @ (if starts_recovery e s then [SignOutSettles r out] else []))
              (on_response_error r e s)) = sent r s"
proof (cases "starts_recovery e s")
  case False
  then have "delivered r (on_response_error r e s) = delivered r s @ [Rejected e]"
    "sent r (on_response_error r e s) = sent r s"
    by (simp_all add: handler_immediate reject_def delivered_def sent_def)
  with run_other_calls[OF assms(2), of "on_response_error r e s"]
    run_other_calls_sent[OF assms(2), of "on_response_error r e s"] False
  show ?thesis by simp
next
  case True
  let ?t = "\<lparr>t_rid = r, t_error = e, t_pathname = current_pathname (location s)\<rparr>"
  let ?s1 = "on_response_error r e s"
  let ?s2 = "run evs ?s1"
  from True have s1: "delivered r ?s1 = delivered r s" "sent r ?s1 = sent r s"
    "find (\<lambda>t. t_rid t = r) (awaiting ?s1) = Some ?t"
    using assms(1) by (simp_all add: handler_suspends delivered_def sent_def find_append_new)
  with run_other_calls[OF assms(2), of ?s1] run_other_calls_sent[OF assms(2), of ?s1]
  have s2: "delivered r ?s2 = delivered r s" "sent r ?s2 = sent r s"
    "find (\<lambda>t. t_rid t = r) (awaiting ?s2) = Some ?t" by simp_all
  then have "delivered r (step (SignOutSettles r out) ?s2) = delivered r s @ [Rejected e]"
    "sent r (step (SignOutSettles r out) ?s2) = sent r s"
    by (simp_all add: resume_fields delivered_def sent_def)
  with True show ?thesis by (simp add: run_append)
qed

subsection \<open>The course of one burst\<close>

lemma step_idle_redirects:
  assumes "idle s" "\<not> fails_unauthorized ev"
  shows "redirects (step ev s) = redirects s"
proof (cases ev)
  case (Augment r cfg l)
  show ?thesis
  proof (cases l)
    case (LookupRejected e)
    with assms Augment show ?thesis
      by (simp add: request_interceptor_def handler_immediate starts_recovery_def reject_def)
  next
    case (LookupResolved so)
    with Augment show ?thesis
      by (simp add: request_interceptor_def split: option.split)
  qed
next
  case (Failure r e)
  with assms show ?thesis by (simp add: handler_immediate starts_recovery_def reject_def)
next
  case (SignOutSettles r out)
  with assms show ?thesis by (simp add: idle_def)
next
  case TimerFires
  then show ?thesis by (simp split: list.split)
qed simp_all

lemma run_idle:
  "idle s \<Longrightarrow> \<forall>ev\<in>set evs. burst_event ev \<Longrightarrow> \<forall>ev\<in>set evs. \<not> fails_unauthorized ev \<Longrightarrow>
   idle (run evs s) \<and> signOutCalls (run evs s) = signOutCalls s
   \<and> redirects (run evs s) = redirects s"
proof (induction evs arbitrary: s)
  case Nil
  then show ?case by simp
next
  case (Cons ev evs)
  from Cons.prems step_idle[of s ev] step_idle_redirects[of s ev]
  have "idle (step ev s)" "signOutCalls (step ev s) = signOutCalls s"
    "redirects (step ev s) = redirects s" by simp_all
  with Cons.IH[of "step ev s"] Cons.prems show ?case by simp
qed

text \<open>The first 401 failure in an idle state: its handler sets the flag, calls the
  sign-out and is the one handler that awaits.\<close>

lemma step_first_task:
  assumes "idle s" "fails_unauthorized ev" "about r ev"
  shows "\<exists>e. step ev s =
           s\<lparr>isHandlingUnauthorized := True, signOutCalls := Suc (signOutCalls s),
             awaiting := [\<lparr>t_rid = r, t_error = e,
                           t_pathname = current_pathname (location s)\<rparr>]\<rparr>"
proof -
  have h: "is_unauthorized e \<Longrightarrow> starts_recovery e s" for e
    using assms(1) by (simp add: idle_def starts_recovery_def)
  from assms(1) have aw: "awaiting s = []" by (simp add: idle_def)
  show ?thesis
  proof (cases ev)
    case (Augment r' cfg l)
    with assms(2) obtain e where "l = LookupRejected e" "is_unauthorized e"
      by (cases l) simp_all
    with Augment h[of e] assms(3) aw
    have "step ev s =
           s\<lparr>isHandlingUnauthorized := True, signOutCalls := Suc (signOutCalls s),
             awaiting := [\<lparr>t_rid = r, t_error = e,
                           t_pathname = current_pathname (location s)\<rparr>]\<rparr>"
      by (simp add: request_interceptor_def handler_suspends)
    then show ?thesis ..
  next
    case (Failure r' e)
    with assms(2,3) h[of e] aw
    have "step ev s =
           s\<lparr>isHandlingUnauthorized := True, signOutCalls := Suc (signOutCalls s),
             awaiting := [\<lparr>t_rid = r, t_error = e,
                           t_pathname = current_pathname (location s)\<rparr>]\<rparr>"
      by (simp add: handler_suspends)
    then show ?thesis ..
  qed (use assms(2) in simp_all)
qed

text \<open>While that handler awaits, no other event of the burst calls the sign-out,
  redirects, or touches the suspended handler.\<close>

lemma step_pending:
  assumes "isHandlingUnauthorized s" "awaiting s = [t]" "burst_event ev"
    "\<not> settles (t_rid t) ev"
  shows "isHandlingUnauthorized (step ev s) \<and> awaiting (step ev s) = [t]
    \<and> redirects (step ev s) = redirects s \<and> signOutCalls (step ev s) = signOutCalls s"
proof (cases ev)
  case (Augment r cfg l)
  show ?thesis
  proof (cases "request_interceptor l cfg")
    case (Inl e)
    with assms Augment show ?thesis
      by (simp add: handler_immediate starts_recovery_def reject_def)
  next
    case (Inr c)
    with assms Augment show ?thesis by simp
  qed
next
  case (Failure r e)
  with assms show ?thesis by (simp add: handler_immediate starts_recovery_def reject_def)
next
  case (SignOutSettles r out)
  with assms show ?thesis by simp
qed (use assms in simp_all)

lemma run_pending:
  "isHandlingUnauthorized s \<Longrightarrow> awaiting s = [t] \<Longrightarrow> \<forall>ev\<in>set evs. burst_event ev \<Longrightarrow>
   \<forall>ev\<in>set evs. \<not> settles (t_rid t) ev \<Longrightarrow>
   isHandlingUnauthorized (run evs s) \<and> awaiting (run evs s) = [t]
   \<and> redirects (run evs s) = redirects s \<and> signOutCalls (run evs s) = signOutCalls s"
proof (induction evs arbitrary: s)
  case Nil
  then show ?case by simp
next
  case (Cons ev evs)
  from Cons.prems step_pending[of s t ev]
  have "isHandlingUnauthorized (step ev s)" "awaiting (step ev s) = [t]"
    "redirects (step ev s) = redirects s" "signOutCalls (step ev s) = signOutCalls s"
    by simp_all
  with Cons.IH[of "step ev s"] Cons.prems show ?case by simp
qed

text \<open>After the redirect, and until the timer fires, nothing more happens to the
  recovery.\<close>

lemma step_done:
  assumes "isHandlingUnauthorized s" "awaiting s = []" "burst_event ev"
  shows "isHandlingUnauthorized (step ev s) \<and> awaiting (step ev s) = []
    \<and> redirects (step ev s) = redirects s \<and> signOutCalls (step ev s) = signOutCalls s"
proof (cases ev)
  case (Augment r cfg l)
  show ?thesis
  proof (cases "request_interceptor l cfg")
    case (Inl e)
    with assms Augment show ?thesis
      by (simp add: handler_immediate starts_recovery_def reject_def)
  next
    case (Inr c)
    with assms Augment show ?thesis by simp
  qed
next
  case (Failure r e)
  with assms show ?thesis by (simp add: handler_immediate starts_recovery_def reject_def)
next
  case (SignOutSettles r out)
  with assms show ?thesis by simp
qed (use assms in simp_all)

lemma run_done:
  "isHandlingUnauthorized s \<Longrightarrow> awaiting s = [] \<Longrightarrow> \<forall>ev\<in>set evs. burst_event ev \<Longrightarrow>
   redirects (run evs s) = redirects s \<and> signOutCalls (run evs s) = signOutCalls s"
proof (induction evs arbitrary: s)
  case Nil
  then show ?case by simp
next
  case (Cons ev evs)
  from Cons.prems step_done[of s ev]
  have "isHandlingUnauthorized (step ev s)" "awaiting (step ev s) = []"
    "redirects (step ev s) = redirects s" "signOutCalls (step ev s) = signOutCalls s"
    by simp_all
  with Cons.IH[of "step ev s"] Cons.prems show ?case by simp
qed

text \<open>The whole burst, cut at the first 401 failure and at the settling of the
  sign-out its handler awaits.\<close>

lemma burst_until_settled:
  assumes "idle s"
    and "\<forall>ev\<in>set pre. burst_event ev \<and> \<not> fails_unauthorized ev"
    and "fails_unauthorized ev0" and "about r ev0"
    and "\<forall>ev\<in>set mid. burst_event ev \<and> \<not> settles r ev"
  shows "signOutCalls (run (pre @ ev0 # mid) s) = Suc (signOutCalls s)"
    and "redirects (run (pre @ ev0 # mid) s) = redirects s"
    and "isHandlingUnauthorized (run (pre @ ev0 # mid) s)"
    and "\<exists>e. awaiting (run (pre @ ev0 # mid) s) =
            [\<lparr>t_rid = r, t_error = e, t_pathname = current_pathname (location (run pre s))\<rparr>]"
proof -
  let ?s0 = "run pre s"
  from run_idle[OF assms(1), of pre] assms(2)
  have s0: "idle ?s0" "signOutCalls ?s0 = signOutCalls s" "redirects ?s0 = redirects s"
    by simp_all
  from step_first_task[OF s0(1) assms(3,4)] obtain e where
    s1: "step ev0 ?s0 = ?s0\<lparr>isHandlingUnauthorized := True,
            signOutCalls := Suc (signOutCalls ?s0),
            awaiting := [\<lparr>t_rid = r, t_error = e,
                          t_pathname = current_pathname (location ?s0)\<rparr>]\<rparr>" by blast
  let ?t = "\<lparr>t_rid = r, t_error = e, t_pathname = current_pathname (location ?s0)\<rparr>"
  let ?s1 = "step ev0 ?s0"
  from s1 have f1: "isHandlingUnauthorized ?s1" "awaiting ?s1 = [?t]"
    "redirects ?s1 = redirects ?s0" "signOutCalls ?s1 = Suc (signOutCalls ?s0)"
    by simp_all
  from assms(5) have m: "\<forall>ev\<in>set mid. burst_event ev" "\<forall>ev\<in>set mid. \<not> settles (t_rid ?t) ev"
    by simp_all
  from run_pending[OF f1(1,2) m]
  have s2: "isHandlingUnauthorized (run mid ?s1)" "awaiting (run mid ?s1) = [?t]"
    "redirects (run mid ?s1) = redirects ?s1" "signOutCalls (run mid ?s1) = signOutCalls ?s1"
    by simp_all
  have eq: "run (pre @ ev0 # mid) s = run mid ?s1" by (simp add: run_append)
  show "signOutCalls (run (pre @ ev0 # mid) s) = Suc (signOutCalls s)"
    using eq s2 f1 s0 by simp
  show "redirects (run (pre @ ev0 # mid) s) = redirects s"
    using eq s2 f1 s0 by simp
  show "isHandlingUnauthorized (run (pre @ ev0 # mid) s)"
    using eq s2 by simp
  show "\<exists>e. awaiting (run (pre @ ev0 # mid) s) =
            [\<lparr>t_rid = r, t_error = e, t_pathname = current_pathname (location (run pre s))\<rparr>]"
    using eq s2(2) by auto
qed

lemma burst_after_settled:
  assumes "idle s"
    and "\<forall>ev\<in>set pre. burst_event ev \<and> \<not> fails_unauthorized ev"
    and "fails_unauthorized ev0" and "about r ev0"
    and "\<forall>ev\<in>set mid. burst_event ev \<and> \<not> settles r ev"
    and "\<forall>ev\<in>set post. burst_event ev"
  shows "signOutCalls (run (pre @ ev0 # mid @ SignOutSettles r out # post) s) =
           Suc (signOutCalls s)
    \<and> redirects (run (pre @ ev0 # mid @ SignOutSettles r out # post) s) =
           redirects s @ [''/login?returnUrl='' @
             encodeURIComponent (current_pathname (location (run pre s)) @
                                 search (location (run (pre @ ev0 # mid) s)))]"
proof -
  let ?s2 = "run (pre @ ev0 # mid) s"
  from burst_until_settled[OF assms(1-5)] obtain e where
    s2: "signOutCalls ?s2 = Suc (signOutCalls s)" "redirects ?s2 = redirects s"
      "isHandlingUnauthorized ?s2"
      "awaiting ?s2 =
         [\<lparr>t_rid = r, t_error = e, t_pathname = current_pathname (location (run pre s))\<rparr>]"
    by blast
  let ?s3 = "step (SignOutSettles r out) ?s2"
  from s2 have s3: "isHandlingUnauthorized ?s3" "awaiting ?s3 = []"
    "signOutCalls ?s3 = Suc (signOutCalls s)"
    "redirects ?s3 = redirects s @ [''/login?returnUrl='' @
             encodeURIComponent (current_pathname (location (run pre s)) @
                                 search (location ?s2))]"
    by (simp_all add: resume_fields)
  from run_done[OF s3(1,2) assms(6)] s3
  have "signOutCalls (run post ?s3) = Suc (signOutCalls s)"
    "redirects (run post ?s3) = redirects s @ [''/login?returnUrl='' @
             encodeURIComponent (current_pathname (location (run pre s)) @
                                 search (location ?s2))]" by simp_all
  moreover have "run (pre @ ev0 # mid @ SignOutSettles r out # post) s = run post ?s3"
    using run_append[of "pre @ ev0 # mid" "SignOutSettles r out # post" s] by simp
  ultimately show ?thesis by simp
qed

section \<open>The claims\<close>

subsection \<open>Deduplication of concurrent 401 handlers\<close>

text \<open>
  Claim C1. Take a state in which no recovery is under way and the page is off the
  public paths, and a burst: events among which the reset timer does not fire and every
  navigation stays off the public paths, with the error handler called \<open>N \<ge> 1\<close> times
  with a 401 error, in any order and interleaved in any way with other requests, clock
  advances and the settling of the sign-out. Every burst is cut at its first 401
  failure \<open>ev0\<close>, of call \<open>r\<close>: before it come events \<open>pre\<close> without a 401 failure,
  after it events \<open>mid\<close> in which the sign-out awaited by the handler of \<open>r\<close> has
  not settled, and then, if it settles, that event and any events \<open>post\<close>.
  \<^item> Up to the settling, \<^verbatim>\<open>supabase.auth.signOut()\<close> has been called exactly once and
    nothing has been assigned to \<^verbatim>\<open>window.location.href\<close>.
  \<^item> With the settling, and whatever follows in the burst, the sign-out has still been
    called exactly once, and exactly one redirect has been assigned: to
    \<^verbatim>\<open>/login?returnUrl=\<close> followed by the encoded return URL that the handler of
    \<open>r\<close> builds in the step in which its sign-out settles.
  \<^item> So for every burst with \<open>N \<ge> 1\<close>, the sign-out is called once, and the number of
    redirects is one if no handler is left awaiting and none otherwise.
  \<^item> A handler that finds \<^verbatim>\<open>isHandlingUnauthorized\<close> set does nothing but reject
    its caller with the error it was given.
  \<^item> Whatever events happen to a freshly loaded page (the timer included), at most one
    recovery is under way at any time, and the flag is set exactly while one is.
\<close>

theorem recovery_runs_once:
  assumes "idle s"
    and "\<forall>ev\<in>set pre. burst_event ev \<and> \<not> fails_unauthorized ev"
    and "fails_unauthorized ev0" and "about r ev0"
    and "\<forall>ev\<in>set mid. burst_event ev \<and> \<not> settles r ev"
    and "\<forall>ev\<in>set post. burst_event ev"
  shows "signOutCalls (run (pre @ ev0 # mid) s) = Suc (signOutCalls s)
    \<and> redirects (run (pre @ ev0 # mid) s) = redirects s
    \<and> signOutCalls (run (pre @ ev0 # mid @ SignOutSettles r out # post) s) =
        Suc (signOutCalls s)
    \<and> redirects (run (pre @ ev0 # mid @ SignOutSettles r out # post) s) =
        redirects s @ [''/login?returnUrl='' @
          encodeURIComponent (current_pathname (location (run pre s)) @
                              search (location (run (pre @ ev0 # mid) s)))]
    \<and> ((\<forall>ev\<in>set evs. burst_event ev) \<and> 1 \<le> length (filter fails_unauthorized evs) \<longrightarrow>
        signOutCalls (run evs s) = Suc (signOutCalls s)
        \<and> length (redirects (run evs s)) =
            (if awaiting (run evs s) = [] then Suc (length (redirects s))
             else length (redirects s)))
    \<and> (isHandlingUnauthorized s' \<longrightarrow> step (Failure r' e) s' = reject r' e s')
    \<and> in_flight (run evs' (init loc)) =
        (if isHandlingUnauthorized (run evs' (init loc)) then 1 else 0)"
proof -
  note before_settling = burst_until_settled[OF assms(1-5)]
  note after_settling = burst_after_settled[OF assms, of out]
  have general: "signOutCalls (run evs s) = Suc (signOutCalls s)
        \<and> length (redirects (run evs s)) =
            (if awaiting (run evs s) = [] then Suc (length (redirects s))
             else length (redirects s))"
    if burst: "\<forall>ev\<in>set evs. burst_event ev"
      and some: "1 \<le> length (filter fails_unauthorized evs)"
  proof -
    from some have "filter fails_unauthorized evs \<noteq> []" by auto
    then have ex: "\<exists>ev\<in>set evs. fails_unauthorized ev" by (simp add: filter_empty_conv)
    from burst_calls_once[OF assms(1) burst ex]
    have calls: "signOutCalls (run evs s) = Suc (signOutCalls s)" .
    from assms(1) have "awaiting s = []" by (simp add: idle_def)
    with run_balance[of evs s] calls
    have sum: "length (awaiting (run evs s)) + length (redirects (run evs s)) =
               Suc (length (redirects s))" by simp
    have "length (redirects (run evs s)) =
          (if awaiting (run evs s) = [] then Suc (length (redirects s))
           else length (redirects s))"
    proof (cases "awaiting (run evs s) = []")
      case True
      with sum show ?thesis by simp
    next
      case False
      then have "1 \<le> length (awaiting (run evs s))"
        by (cases "awaiting (run evs s)") simp_all
      with sum run_redirects_grow[of s evs]
      have "length (redirects (run evs s)) = length (redirects s)" by linarith
      with False show ?thesis by simp
    qed
    with calls show ?thesis by simp
  qed
  have observer: "isHandlingUnauthorized s' \<longrightarrow> step (Failure r' e) s' = reject r' e s'"
    by (simp add: handler_immediate starts_recovery_def)
  have "in_flight (init loc) = (if isHandlingUnauthorized (init loc) then 1 else 0)"
    by (simp add: in_flight_def init_def)
  from run_in_flight[OF this]
  have one: "in_flight (run evs' (init loc)) =
        (if isHandlingUnauthorized (run evs' (init loc)) then 1 else 0)" .
  from before_settling(1,2) after_settling general observer one show ?thesis by blast
qed

theorem recovery_runs_once_witness:
  "idle (init (at_path ''/settings''))
   \<and> list_all (\<lambda>ev. burst_event ev \<and> \<not> fails_unauthorized ev) [Elapse 5, Failure 9 (http_error 500)]
   \<and> fails_unauthorized (Failure 1 (http_error 401)) \<and> about 1 (Failure 1 (http_error 401))
   \<and> list_all (\<lambda>ev. burst_event ev \<and> \<not> settles 1 ev)
        [Failure 2 (http_error 401), Elapse 40, Failure 3 (http_error 401)]
   \<and> list_all burst_event [Failure 4 (http_error 401), Elapse 900]
   \<and> signOutCalls (run [Elapse 5, Failure 9 (http_error 500), Failure 1 (http_error 401),
                         Failure 2 (http_error 401), Elapse 40, Failure 3 (http_error 401)]
                      (init (at_path ''/settings''))) = 1
   \<and> redirects (run [Elapse 5, Failure 9 (http_error 500), Failure 1 (http_error 401),
                      Failure 2 (http_error 401), Elapse 40, Failure 3 (http_error 401)]
                   (init (at_path ''/settings''))) = []
   \<and> signOutCalls (run [Elapse 5, Failure 9 (http_error 500), Failure 1 (http_error 401),
                         Failure 2 (http_error 401), Elapse 40, Failure 3 (http_error 401),
                         SignOutSettles 1 SignOutResolved,
                         Failure 4 (http_error 401), Elapse 900]
                      (init (at_path ''/settings''))) = 1
   \<and> redirects (run [Elapse 5, Failure 9 (http_error 500), Failure 1 (http_error 401),
                      Failure 2 (http_error 401), Elapse 40, Failure 3 (http_error 401),
                      SignOutSettles 1 SignOutResolved,
                      Failure 4 (http_error 401), Elapse 900]
                   (init (at_path ''/settings''))) = [''/login?returnUrl=%2Fsettings'']
   \<and> list_all burst_event
        [Failure 1 (http_error 401), Failure 2 (http_error 401),
         Failure 3 (http_error 401), SignOutSettles 1 SignOutResolved]
   \<and> 1 \<le> length (filter fails_unauthorized
            [Failure 1 (http_error 401), Failure 2 (http_error 401),
             Failure 3 (http_error 401), SignOutSettles 1 SignOutResolved])
   \<and> isHandlingUnauthorized (step (Failure 1 (http_error 401)) (init (at_path ''/settings'')))
   \<and> signOutCalls (run [Failure 1 (http_error 401), Failure 2 (http_error 401),
                         Failure 3 (http_error 401), SignOutSettles 1 SignOutResolved]
                      (init (at_path ''/settings''))) = 1
   \<and> length (redirects (run [Failure 1 (http_error 401), Failure 2 (http_error 401),
                         Failure 3 (http_error 401), SignOutSettles 1 SignOutResolved]
                      (init (at_path ''/settings'')))) = 1
   \<and> step (Failure 2 (http_error 401))
        (step (Failure 1 (http_error 401)) (init (at_path ''/settings''))) =
      reject 2 (http_error 401)
        (step (Failure 1 (http_error 401)) (init (at_path ''/settings'')))
   \<and> in_flight (run [Failure 1 (http_error 401), Failure 2 (http_error 401)]
        (init (at_path ''/settings''))) = 1"
  using recovery_runs_once
    [where s = "init (at_path ''/settings'')"
       and pre = "[Elapse 5, Failure 9 (http_error 500)]"
       and ?ev0.0 = "Failure 1 (http_error 401)" and r = 1
       and mid = "[Failure 2 (http_error 401), Elapse 40, Failure 3 (http_error 401)]"
       and post = "[Failure 4 (http_error 401), Elapse 900]"
       and out = SignOutResolved
       and evs = "[Failure 1 (http_error 401), Failure 2 (http_error 401),
                   Failure 3 (http_error 401), SignOutSettles 1 SignOutResolved]"
       and s' = "step (Failure 1 (http_error 401)) (init (at_path ''/settings''))"
       and r' = 2 and e = "http_error 401"
       and evs' = "[Failure 1 (http_error 401), Failure 2 (http_error 401)]"
       and loc = "at_path ''/settings''"]
  by (simp add: model_defs)

subsection \<open>Public paths\<close>

text \<open>
  Claim C6. When the handler is called with a 401 error while
  \<^verbatim>\<open>window.location.pathname\<close> begins with an entry of \<^verbatim>\<open>PUBLIC_PATHS\<close>, the
  only thing that happens is that the caller's promise rejects with that same error:
  sign-out is not called, no redirect is assigned, and
  \<^verbatim>\<open>isHandlingUnauthorized\<close> keeps its value.
\<close>

theorem unauthorized_on_public_path:
  assumes "is_unauthorized e" and "p \<in> set PUBLIC_PATHS"
    and "pathname (location s) = p @ rest"
  shows "step (Failure r e) s = s\<lparr>settled := settled s @ [(r, Rejected e)]\<rparr>
    \<and> signOutCalls (step (Failure r e) s) = signOutCalls s
    \<and> redirects (step (Failure r e) s) = redirects s
    \<and> isHandlingUnauthorized (step (Failure r e) s) = isHandlingUnauthorized s"
proof -
  from assms(2) have "p \<noteq> []" by (auto simp: PUBLIC_PATHS_def)
  with assms(3) have "current_pathname (location s) = p @ rest"
    by (simp add: current_pathname_def)
  with assms(2) have "on_public_path (current_pathname (location s))"
    by (auto simp: on_public_path_iff)
  then have "\<not> starts_recovery e s" by (simp add: starts_recovery_def)
  then have "step (Failure r e) s = reject r e s" by (simp add: handler_immediate)
  then show ?thesis by (simp add: reject_def)
qed

theorem unauthorized_on_public_path_witness:
  "is_unauthorized (http_error 401) \<and> ''/reset-password'' \<in> set PUBLIC_PATHS
   \<and> pathname (location (init (at_path ''/reset-password/abc''))) = ''/reset-password'' @ ''/abc''
   \<and> step (Failure 7 (http_error 401)) (init (at_path ''/reset-password/abc'')) =
       (init (at_path ''/reset-password/abc''))\<lparr>settled := [(7, Rejected (http_error 401))]\<rparr>
   \<and> signOutCalls (step (Failure 7 (http_error 401)) (init (at_path ''/reset-password/abc''))) = 0
   \<and> redirects (step (Failure 7 (http_error 401)) (init (at_path ''/reset-password/abc''))) = []
   \<and> \<not> isHandlingUnauthorized
         (step (Failure 7 (http_error 401)) (init (at_path ''/reset-password/abc'')))"
  using unauthorized_on_public_path
    [of "http_error 401" "''/reset-password''" "init (at_path ''/reset-password/abc'')"
        "''/abc''" 7]
  by (simp add: model_defs)

text \<open>
  Claim C10. The test of line 104 is a plain prefix test on the characters of the path:
  a path is public exactly when it is one of the four entries followed by any string at
  all, so \<^verbatim>\<open>/reset-password-extra\<close> and \<^verbatim>\<open>/signup2\<close> are public. On a public
  path a 401 error starts no recovery. The path tested is \<^verbatim>\<open>/\<close> when
  \<^verbatim>\<open>window.location.pathname\<close> is empty, and \<^verbatim>\<open>/\<close> is not public: a 401 error
  there starts the recovery when none is under way.
\<close>

theorem public_path_is_raw_prefix:
  "(on_public_path path \<longleftrightarrow>
      (\<exists>p\<in>set [''/login'', ''/signup'', ''/forgot-password'', ''/reset-password''].
         \<exists>rest. path = p @ rest))
   \<and> on_public_path ''/reset-password-extra''
   \<and> on_public_path ''/signup2''
   \<and> (on_public_path (current_pathname (location s)) \<longrightarrow>
        step (Failure r e) s = reject r e s)
   \<and> (pathname loc = [] \<longrightarrow> current_pathname loc = ''/'')
   \<and> \<not> on_public_path ''/''
   \<and> (is_unauthorized e \<and> current_pathname (location s) = ''/''
        \<and> \<not> isHandlingUnauthorized s \<longrightarrow>
        signOutCalls (step (Failure r e) s) = Suc (signOutCalls s)
        \<and> isHandlingUnauthorized (step (Failure r e) s))"
proof -
  have a: "on_public_path path \<longleftrightarrow>
      (\<exists>p\<in>set [''/login'', ''/signup'', ''/forgot-password'', ''/reset-password''].
         \<exists>rest. path = p @ rest)"
    using on_public_path_iff[of path] by (simp only: PUBLIC_PATHS_def)
  have b: "on_public_path ''/reset-password-extra''" "on_public_path ''/signup2''"
    by (simp_all add: on_public_path_def PUBLIC_PATHS_def startsWith_def)
  have c: "on_public_path (current_pathname (location s)) \<longrightarrow>
        step (Failure r e) s = reject r e s"
    by (simp add: handler_immediate starts_recovery_def)
  have d: "pathname loc = [] \<longrightarrow> current_pathname loc = ''/''"
    by (simp add: current_pathname_def)
  have e: "\<not> on_public_path ''/''"
    by (simp add: on_public_path_def PUBLIC_PATHS_def startsWith_def)
  have f: "is_unauthorized e \<and> current_pathname (location s) = ''/''
        \<and> \<not> isHandlingUnauthorized s \<longrightarrow>
        signOutCalls (step (Failure r e) s) = Suc (signOutCalls s)
        \<and> isHandlingUnauthorized (step (Failure r e) s)"
  proof (intro impI)
    assume h: "is_unauthorized e \<and> current_pathname (location s) = ''/''
        \<and> \<not> isHandlingUnauthorized s"
    with e have "starts_recovery e s" by (simp add: starts_recovery_def)
    then show "signOutCalls (step (Failure r e) s) = Suc (signOutCalls s)
        \<and> isHandlingUnauthorized (step (Failure r e) s)"
      by (simp add: handler_suspends)
  qed
  from a b c d e f show ?thesis by blast
qed

theorem public_path_is_raw_prefix_witness:
  "on_public_path ''/signup2''
   \<and> ''/signup'' \<in> set [''/login'', ''/signup'', ''/forgot-password'', ''/reset-password'']
   \<and> ''/signup2'' = ''/signup'' @ ''2''
   \<and> on_public_path (current_pathname (location (init (at_path ''/reset-password-extra''))))
   \<and> step (Failure 1 (http_error 401)) (init (at_path ''/reset-password-extra'')) =
       reject 1 (http_error 401) (init (at_path ''/reset-password-extra''))
   \<and> pathname (at_path []) = [] \<and> current_pathname (at_path []) = ''/''
   \<and> is_unauthorized (http_error 401)
   \<and> current_pathname (location (init (at_path []))) = ''/''
   \<and> \<not> isHandlingUnauthorized (init (at_path []))
   \<and> signOutCalls (step (Failure 1 (http_error 401)) (init (at_path []))) = 1
   \<and> isHandlingUnauthorized (step (Failure 1 (http_error 401)) (init (at_path [])))"
  using public_path_is_raw_prefix
    [of "''/signup2''" "init (at_path ''/reset-password-extra'')" 1 "http_error 401"
        "at_path []"]
    public_path_is_raw_prefix
    [of "''/signup2''" "init (at_path [])" 1 "http_error 401" "at_path []"]
  by (simp add: model_defs)

subsection \<open>The request interceptor\<close>

text \<open>
  Claim C3. When \<^verbatim>\<open>getSession()\<close> rejects with \<open>e\<close> for call \<open>r\<close>, the request
  interceptor rejects with \<open>e\<close> itself, and nothing is handed to the transport, neither
  in that step nor for \<open>r\<close> later. The rejection passes through the response
  interceptor's error handler and reaches the caller as it is: once that handler has run
  to its end, with any events of other calls in between, the caller of \<open>r\<close> has received
  exactly one more outcome, the rejection with \<open>e\<close>. (A lookup error carries no 401
  response unless the provider puts one there; without one the handler rejects at once.)
\<close>

theorem lookup_failure_aborts_request:
  assumes "find (\<lambda>t. t_rid t = r) (awaiting s) = None"
    and "\<forall>ev\<in>set evs. \<not> about r ev"
  shows "request_interceptor (LookupRejected e) cfg = Inl e
    \<and> transmitted (step (Augment r cfg (LookupRejected e)) s) = transmitted s
    \<and> sent r (run (Augment r cfg (LookupRejected e) # evs @
                 (if starts_recovery e s then [SignOutSettles r out] else [])) s) = sent r s
    \<and> delivered r (run (Augment r cfg (LookupRejected e) # evs @
                 (if starts_recovery e s then [SignOutSettles r out] else [])) s) =
        delivered r s @ [Rejected e]
    \<and> (response e = None \<longrightarrow>
        settled (step (Augment r cfg (LookupRejected e)) s) = settled s @ [(r, Rejected e)])"
proof -
  have a: "request_interceptor (LookupRejected e) cfg = Inl e"
    by (simp add: request_interceptor_def)
  then have st: "step (Augment r cfg (LookupRejected e)) s = on_response_error r e s"
    by simp
  have b: "transmitted (step (Augment r cfg (LookupRejected e)) s) = transmitted s"
    unfolding st by (rule handler_transmits_nothing)
  have c: "response e = None \<longrightarrow>
        settled (step (Augment r cfg (LookupRejected e)) s) = settled s @ [(r, Rejected e)]"
    unfolding st
    by (simp add: handler_immediate starts_recovery_def is_unauthorized_def reject_def)
  from handler_runs_to_end[OF assms, of e out] a b c st show ?thesis by simp
qed

theorem lookup_failure_aborts_request_witness:
  "find (\<lambda>t. t_rid t = 4) (awaiting (init (at_path ''/dashboard''))) = None
   \<and> list_all (\<lambda>ev. \<not> about 4 ev) [Augment 5 (request_config accept_default HealthCheck) (LookupResolved None)]
   \<and> response \<lparr>response = None, message = ''lookup failed''\<rparr> = None
   \<and> transmitted (step (Augment 4 (request_config accept_default GetIntegrations)
        (LookupRejected \<lparr>response = None, message = ''lookup failed''\<rparr>))
        (init (at_path ''/dashboard''))) = []
   \<and> sent 4 (run [Augment 4 (request_config accept_default GetIntegrations)
                    (LookupRejected \<lparr>response = None, message = ''lookup failed''\<rparr>),
                  Augment 5 (request_config accept_default HealthCheck) (LookupResolved None)]
        (init (at_path ''/dashboard''))) = []
   \<and> delivered 4 (run [Augment 4 (request_config accept_default GetIntegrations)
                    (LookupRejected \<lparr>response = None, message = ''lookup failed''\<rparr>),
                  Augment 5 (request_config accept_default HealthCheck) (LookupResolved None)]
        (init (at_path ''/dashboard''))) =
      [Rejected \<lparr>response = None, message = ''lookup failed''\<rparr>]
   \<and> settled (step (Augment 4 (request_config accept_default GetIntegrations)
        (LookupRejected \<lparr>response = None, message = ''lookup failed''\<rparr>))
        (init (at_path ''/dashboard''))) =
      [(4, Rejected \<lparr>response = None, message = ''lookup failed''\<rparr>)]"
  using lookup_failure_aborts_request
    [of 4 "init (at_path ''/dashboard'')"
        "[Augment 5 (request_config accept_default HealthCheck) (LookupResolved None)]"
        "\<lparr>response = None, message = ''lookup failed''\<rparr>" "request_config accept_default GetIntegrations"
        SignOutResolved]
  by (simp add: model_defs sent_def)

text \<open>
  Claim C7. When the session lookup resolves with a session whose access token is not
  empty, the descriptor that goes on to be sent is the given one with the
  \<^verbatim>\<open>Authorization\<close> header set to \<^verbatim>\<open>Bearer\<close>, a space and the token: that is
  the value of the header, every other header keeps its value, and no header name
  occurs twice if none did. When the lookup resolves with no session or with an empty
  token, the descriptor goes on as it was given. The descriptors of this client's own
  calls carry an \<^verbatim>\<open>Authorization\<close> header only if axios supplies one by itself, so
  without a credential they carry none.
\<close>

theorem authorization_header_attached:
  "(access_token ss \<noteq> [] \<longrightarrow>
      step (Augment r cfg (LookupResolved (Some ss))) s =
        s\<lparr>transmitted := transmitted s @
            [(r, cfg\<lparr>headers := AList.update ''Authorization''
                        (''Bearer '' @ access_token ss) (headers cfg)\<rparr>)]\<rparr>
      \<and> map_of (AList.update ''Authorization'' (''Bearer '' @ access_token ss) (headers cfg))
            ''Authorization'' = Some (''Bearer '' @ access_token ss)
      \<and> (k \<noteq> ''Authorization'' \<longrightarrow>
           map_of (AList.update ''Authorization'' (''Bearer '' @ access_token ss) (headers cfg)) k
             = map_of (headers cfg) k)
      \<and> (distinct (map fst (headers cfg)) \<longrightarrow>
           distinct (map fst (AList.update ''Authorization'' (''Bearer '' @ access_token ss)
              (headers cfg)))))
   \<and> (so = None \<or> (\<exists>ss'. so = Some ss' \<and> access_token ss' = []) \<longrightarrow>
      step (Augment r cfg (LookupResolved so)) s =
        s\<lparr>transmitted := transmitted s @ [(r, cfg)]\<rparr>)
   \<and> map_of (headers (request_config dflt op)) ''Authorization'' =
        map_of dflt ''Authorization''"
proof -
  have hs: "headers (request_config dflt op) = instance_headers dflt"
    by (cases op) simp_all
  have a: "access_token ss \<noteq> [] \<longrightarrow>
      step (Augment r cfg (LookupResolved (Some ss))) s =
        s\<lparr>transmitted := transmitted s @
            [(r, cfg\<lparr>headers := AList.update ''Authorization''
                        (''Bearer '' @ access_token ss) (headers cfg)\<rparr>)]\<rparr>"
    by (simp add: request_interceptor_def)
  have b: "map_of (AList.update ''Authorization'' (''Bearer '' @ access_token ss) (headers cfg))
            ''Authorization'' = Some (''Bearer '' @ access_token ss)"
    by (simp add: update_conv')
  have c: "k \<noteq> ''Authorization'' \<longrightarrow>
           map_of (AList.update ''Authorization'' (''Bearer '' @ access_token ss) (headers cfg)) k
             = map_of (headers cfg) k"
    by (simp add: update_conv')
  have d: "distinct (map fst (headers cfg)) \<longrightarrow>
           distinct (map fst (AList.update ''Authorization'' (''Bearer '' @ access_token ss)
              (headers cfg)))"
    by (simp add: distinct_update)
  have e: "so = None \<or> (\<exists>ss'. so = Some ss' \<and> access_token ss' = []) \<longrightarrow>
      step (Augment r cfg (LookupResolved so)) s =
        s\<lparr>transmitted := transmitted s @ [(r, cfg)]\<rparr>"
    by (auto simp: request_interceptor_def)
  have f: "map_of (headers (request_config dflt op)) ''Authorization'' =
        map_of dflt ''Authorization''"
    by (simp add: hs instance_headers_def update_conv')
  from a b c d e f show ?thesis by blast
qed

theorem authorization_header_attached_witness:
  "access_token \<lparr>access_token = ''tok123''\<rparr> \<noteq> []
   \<and> map (\<lambda>x. map_of (headers (snd x)) ''Authorization'')
        (transmitted (step (Augment 1 (request_config accept_default (GetIntegration ''42''))
           (LookupResolved (Some \<lparr>access_token = ''tok123''\<rparr>)))
           (init (at_path ''/dashboard'')))) = [Some ''Bearer tok123'']
   \<and> ''Accept'' \<noteq> ''Authorization''
   \<and> map (\<lambda>x. map_of (headers (snd x)) ''Accept'')
        (transmitted (step (Augment 1 (request_config accept_default (GetIntegration ''42''))
           (LookupResolved (Some \<lparr>access_token = ''tok123''\<rparr>)))
           (init (at_path ''/dashboard'')))) = [Some ''application/json, text/plain, */*'']
   \<and> distinct (map fst (headers (request_config accept_default (GetIntegration ''42''))))
   \<and> transmitted (step (Augment 1 (request_config accept_default (GetIntegration ''42''))
        (LookupResolved None)) (init (at_path ''/dashboard''))) =
      [(1, request_config accept_default (GetIntegration ''42''))]
   \<and> access_token \<lparr>access_token = []\<rparr> = []
   \<and> transmitted (step (Augment 1 (request_config accept_default (GetIntegration ''42''))
        (LookupResolved (Some \<lparr>access_token = []\<rparr>))) (init (at_path ''/dashboard''))) =
      [(1, request_config accept_default (GetIntegration ''42''))]
   \<and> map_of (headers (request_config accept_default (GetIntegration ''42'')))
        ''Authorization'' = None"
  using authorization_header_attached
    [where ss = "\<lparr>access_token = ''tok123''\<rparr>" and r = 1
       and cfg = "request_config accept_default (GetIntegration ''42'')"
       and s = "init (at_path ''/dashboard'')" and k = "''Accept''" and so = None
       and dflt = accept_default and op = "GetIntegration ''42''"]
    authorization_header_attached
    [where ss = "\<lparr>access_token = ''tok123''\<rparr>" and r = 1
       and cfg = "request_config accept_default (GetIntegration ''42'')"
       and s = "init (at_path ''/dashboard'')" and k = "''Accept''"
       and so = "Some \<lparr>access_token = []\<rparr>"
       and dflt = accept_default and op = "GetIntegration ''42''"]
  by (simp add: model_defs)

subsection \<open>What the caller receives\<close>

text \<open>
  Claim C9. When the sign-out awaited by the handler of call \<open>r\<close> rejects with \<open>x\<close>,
  the handler logs \<open>x\<close> with \<^verbatim>\<open>console.error\<close> and goes on: it assigns the redirect
  to the login page, and its caller's promise rejects with the error the handler was
  called with, not with \<open>x\<close>. Nothing else is settled, so \<open>x\<close> reaches no caller.
\<close>

theorem signout_failure_is_swallowed:
  assumes "find (\<lambda>t. t_rid t = r) (awaiting s) = Some t"
  shows "logged (step (SignOutSettles r (SignOutRejected x)) s) =
           logged s @ [(''Error signing out on 401 handler'', x)]
    \<and> redirects (step (SignOutSettles r (SignOutRejected x)) s) =
           redirects s @ [''/login?returnUrl='' @
              encodeURIComponent (t_pathname t @ search (location s))]
    \<and> settled (step (SignOutSettles r (SignOutRejected x)) s) =
           settled s @ [(r, Rejected (t_error t))]"
proof -
  from find_awaiting[OF assms] have "t_rid t = r" by simp
  with assms show ?thesis by (simp add: resume_fields resume_logged)
qed

theorem signout_failure_is_swallowed_witness:
  "find (\<lambda>t. t_rid t = 1)
      (awaiting (step (Failure 1 (http_error 401)) (init (at_path ''/dashboard'')))) =
     Some \<lparr>t_rid = 1, t_error = http_error 401, t_pathname = ''/dashboard''\<rparr>
   \<and> logged (run [Failure 1 (http_error 401), SignOutSettles 1 (SignOutRejected (http_error 500))]
        (init (at_path ''/dashboard''))) =
      [(''Error signing out on 401 handler'', http_error 500)]
   \<and> redirects (run [Failure 1 (http_error 401),
                     SignOutSettles 1 (SignOutRejected (http_error 500))]
        (init (at_path ''/dashboard''))) = [''/login?returnUrl=%2Fdashboard'']
   \<and> settled (run [Failure 1 (http_error 401),
                   SignOutSettles 1 (SignOutRejected (http_error 500))]
        (init (at_path ''/dashboard''))) = [(1, Rejected (http_error 401))]"
  using signout_failure_is_swallowed
    [of 1 "step (Failure 1 (http_error 401)) (init (at_path ''/dashboard''))"
        "\<lparr>t_rid = 1, t_error = http_error 401, t_pathname = ''/dashboard''\<rparr>"
        "http_error 500"]
  by (simp add: model_defs)

text \<open>
  Claim C5. Let the error handler be called with \<open>e\<close> for call \<open>r\<close>, in any state in
  which no handler of \<open>r\<close> is suspended. Whether \<open>e\<close> is a 401 error or not, whether
  the path is public or not, whether this handler starts the recovery or finds one under
  way, and whether the sign-out it awaits resolves or rejects (\<open>out\<close>): once the handler
  has run to its end, the caller of \<open>r\<close> has received exactly one more outcome, the
  rejection with \<open>e\<close> itself. Events of other calls, timers, clock advances and
  navigations in between (\<open>evs\<close>) change nothing about it.
\<close>

theorem caller_receives_original_failure:
  assumes "find (\<lambda>t. t_rid t = r) (awaiting s) = None"
    and "\<forall>ev\<in>set evs. \<not> about r ev"
  shows "delivered r
           (run (Failure r e # evs @
                 (if starts_recovery e s then [SignOutSettles r out] else [])) s) =
         delivered r s @ [Rejected e]"
proof -
  have "step (Failure r e) s = on_response_error r e s" by simp
  with handler_runs_to_end[OF assms, of e out] show ?thesis by simp
qed

theorem caller_receives_original_failure_witness:
  "find (\<lambda>t. t_rid t = 1) (awaiting (init (at_path ''/dashboard''))) = None
   \<and> list_all (\<lambda>ev. \<not> about 1 ev)
        [Failure 2 (http_error 401), Elapse 30, Failure 3 (http_error 500)]
   \<and> starts_recovery (http_error 401) (init (at_path ''/dashboard''))
   \<and> delivered 1
       (run [Failure 1 (http_error 401), Failure 2 (http_error 401), Elapse 30,
             Failure 3 (http_error 500), SignOutSettles 1 (SignOutRejected (http_error 500))]
          (init (at_path ''/dashboard''))) = [Rejected (http_error 401)]
   \<and> \<not> starts_recovery (http_error 503) (init (at_path ''/dashboard''))
   \<and> delivered 1
       (run [Failure 1 (http_error 503), Failure 2 (http_error 401), Elapse 30,
             Failure 3 (http_error 500)]
          (init (at_path ''/dashboard''))) = [Rejected (http_error 503)]"
  using caller_receives_original_failure
    [of 1 "init (at_path ''/dashboard'')"
        "[Failure 2 (http_error 401), Elapse 30, Failure 3 (http_error 500)]"
        "http_error 401" "SignOutRejected (http_error 500)"]
    caller_receives_original_failure
    [of 1 "init (at_path ''/dashboard'')"
        "[Failure 2 (http_error 401), Elapse 30, Failure 3 (http_error 500)]"
        "http_error 503" "SignOutResolved"]
  by (simp add: model_defs)

subsection \<open>When the handler suspends\<close>

text \<open>
  Claim C4 says that the recovery is dispatched without being awaited, so that its
  duration does not delay the caller's rejection. The handler awaits the sign-out itself
  (line 112) before it reaches its \<^verbatim>\<open>return\<close> (line 133): with a 401 error on
  \<^verbatim>\<open>/dashboard\<close>, the caller has received nothing 5000 ms after the failure, and
  receives the rejection in the step in which the sign-out settles.
\<close>

theorem recovery_is_awaited_counterexample:
  "settled (run [Failure 1 (http_error 401), Elapse 5000] (init (at_path ''/dashboard''))) = []
   \<and> settled (run [Failure 1 (http_error 401), Elapse 5000, SignOutSettles 1 SignOutResolved]
        (init (at_path ''/dashboard''))) = [(1, Rejected (http_error 401))]"
  by (simp add: model_defs)

text \<open>
  Claim C4, amended. The handler that starts the recovery awaits the sign-out: its
  caller receives nothing when the handler is called, nor through any later event that is
  not an event of this call, and receives the rejection with the original error in the
  step in which the sign-out settles, whether it resolves or rejects. A handler that does
  not start the recovery rejects its caller with the original error at once.
\<close>

theorem recovery_awaited_value_unchanged:
  "(starts_recovery e s \<and> (\<forall>ev\<in>set evs. \<not> about r ev) \<longrightarrow>
      delivered r (run (Failure r e # evs) s) = delivered r s)
   \<and> (starts_recovery e s \<and> (\<forall>ev\<in>set evs. \<not> about r ev)
       \<and> find (\<lambda>t. t_rid t = r) (awaiting s) = None \<longrightarrow>
      delivered r (run (Failure r e # evs @ [SignOutSettles r out]) s) =
        delivered r s @ [Rejected e])
   \<and> (\<not> starts_recovery e s \<longrightarrow>
      delivered r (step (Failure r e) s) = delivered r s @ [Rejected e])"
proof -
  let ?t = "\<lparr>t_rid = r, t_error = e, t_pathname = current_pathname (location s)\<rparr>"
  let ?s1 = "step (Failure r e) s"
  have a: "delivered r (run (Failure r e # evs) s) = delivered r s"
    if h: "starts_recovery e s" "\<forall>ev\<in>set evs. \<not> about r ev"
  proof -
    from h(1) have "delivered r ?s1 = delivered r s"
      by (simp add: handler_suspends delivered_def)
    with run_other_calls[OF h(2), of ?s1] show ?thesis by simp
  qed
  have b: "delivered r (run (Failure r e # evs @ [SignOutSettles r out]) s) =
        delivered r s @ [Rejected e]"
    if h: "starts_recovery e s" "\<forall>ev\<in>set evs. \<not> about r ev"
      "find (\<lambda>t. t_rid t = r) (awaiting s) = None"
  proof -
    from h(1,3) have "find (\<lambda>t. t_rid t = r) (awaiting ?s1) = Some ?t"
      by (simp add: handler_suspends find_append_new)
    with run_other_calls[OF h(2), of ?s1] a[OF h(1,2)]
    have "delivered r (run evs ?s1) = delivered r s"
      "find (\<lambda>t. t_rid t = r) (awaiting (run evs ?s1)) = Some ?t" by simp_all
    then have "delivered r (step (SignOutSettles r out) (run evs ?s1)) =
        delivered r s @ [Rejected e]"
      by (simp add: resume_fields delivered_def)
    then show ?thesis by (simp add: run_append)
  qed
  have c: "delivered r ?s1 = delivered r s @ [Rejected e]" if "\<not> starts_recovery e s"
    using that by (simp add: handler_immediate reject_def delivered_def)
  from a b c show ?thesis by blast
qed

theorem recovery_awaited_value_unchanged_witness:
  "starts_recovery (http_error 401) (init (at_path ''/dashboard''))
   \<and> list_all (\<lambda>ev. \<not> about 1 ev) [Elapse 5000, Failure 2 (http_error 401)]
   \<and> find (\<lambda>t. t_rid t = 1) (awaiting (init (at_path ''/dashboard''))) = None
   \<and> delivered 1 (run [Failure 1 (http_error 401), Elapse 5000, Failure 2 (http_error 401)]
        (init (at_path ''/dashboard''))) = []
   \<and> delivered 1 (run [Failure 1 (http_error 401), Elapse 5000, Failure 2 (http_error 401),
                        SignOutSettles 1 (SignOutRejected (http_error 500))]
        (init (at_path ''/dashboard''))) = [Rejected (http_error 401)]
   \<and> \<not> starts_recovery (http_error 401) (init (at_path ''/login''))
   \<and> delivered 1 (step (Failure 1 (http_error 401)) (init (at_path ''/login''))) =
        [Rejected (http_error 401)]"
  using recovery_awaited_value_unchanged
    [of "http_error 401" "init (at_path ''/dashboard'')"
        "[Elapse 5000, Failure 2 (http_error 401)]" 1 "SignOutRejected (http_error 500)"]
    recovery_awaited_value_unchanged
    [of "http_error 401" "init (at_path ''/login'')" "[]" 1 SignOutResolved]
  by (simp add: model_defs)

subsection \<open>The reset of the flag\<close>

text \<open>
  Claim C2 says that the reset is scheduled right after the flag is set, 1000 ms from the
  start of the attempt, so that a sign-out that never settles cannot keep the flag set.
  The call of \<^verbatim>\<open>setTimeout\<close> (line 128) comes after the \<^verbatim>\<open>await\<close> of line 112:
  when the handler suspends no timer is pending; with the sign-out still pending the flag
  is set after 5000 ms, also when the event loop looks for a due timer; and a sign-out
  that settles after 5000 ms puts the reset at 6000 ms.
\<close>

theorem reset_from_start_counterexample:
  "timers (step (Failure 1 (http_error 401)) (init (at_path ''/dashboard''))) = []
   \<and> isHandlingUnauthorized
       (run [Failure 1 (http_error 401), Elapse 5000, TimerFires] (init (at_path ''/dashboard'')))
   \<and> timers (run [Failure 1 (http_error 401), Elapse 5000, SignOutSettles 1 SignOutResolved]
       (init (at_path ''/dashboard''))) = [6000]"
  by (simp add: model_defs)

text \<open>
  Claim C2, amended. The reset of the flag is scheduled with a fixed delay of 1000 ms
  measured from the step in which the awaited sign-out has settled (resolved or rejected)
  and the redirect has been assigned, not from the start of the attempt: the handler
  schedules nothing when it sets the flag and suspends; when its sign-out settles at time
  \<open>now\<close> it adds one timer due at \<open>now + 1000\<close> and leaves the flag set; the timer
  callback clears the flag when it runs, which is not before its due time. No other event
  clears the flag.
\<close>

theorem reset_scheduled_when_signout_settles:
  "(starts_recovery e s \<longrightarrow>
      timers (step (Failure r e) s) = timers s
      \<and> isHandlingUnauthorized (step (Failure r e) s))
   \<and> (find (\<lambda>t. t_rid t = r) (awaiting s) = Some t \<longrightarrow>
      timers (step (SignOutSettles r out) s) = timers s @ [now s + 1000]
      \<and> isHandlingUnauthorized (step (SignOutSettles r out) s) = isHandlingUnauthorized s)
   \<and> (timers s = due # rest \<longrightarrow>
      step TimerFires s =
        (if due \<le> now s then s\<lparr>isHandlingUnauthorized := False, timers := rest\<rparr> else s))
   \<and> (isHandlingUnauthorized s \<and> ev \<noteq> TimerFires \<longrightarrow> isHandlingUnauthorized (step ev s))"
proof -
  have a: "starts_recovery e s \<longrightarrow>
      timers (step (Failure r e) s) = timers s
      \<and> isHandlingUnauthorized (step (Failure r e) s)"
    by (simp add: handler_suspends)
  have b: "find (\<lambda>t. t_rid t = r) (awaiting s) = Some t \<longrightarrow>
      timers (step (SignOutSettles r out) s) = timers s @ [now s + 1000]
      \<and> isHandlingUnauthorized (step (SignOutSettles r out) s) = isHandlingUnauthorized s"
    by (simp add: resume_fields)
  have c: "timers s = due # rest \<longrightarrow>
      step TimerFires s =
        (if due \<le> now s then s\<lparr>isHandlingUnauthorized := False, timers := rest\<rparr> else s)"
    by simp
  have d: "isHandlingUnauthorized s \<and> ev \<noteq> TimerFires \<longrightarrow> isHandlingUnauthorized (step ev s)"
    using step_flag_kept[of s ev] by blast
  from a b c d show ?thesis by blast
qed

theorem reset_scheduled_when_signout_settles_witness:
  "starts_recovery (http_error 401) (init (at_path ''/dashboard''))
   \<and> timers (step (Failure 1 (http_error 401)) (init (at_path ''/dashboard''))) = []
   \<and> find (\<lambda>t. t_rid t = 1)
       (awaiting (run [Failure 1 (http_error 401), Elapse 250] (init (at_path ''/dashboard''))))
       = Some \<lparr>t_rid = 1, t_error = http_error 401, t_pathname = ''/dashboard''\<rparr>
   \<and> timers (run [Failure 1 (http_error 401), Elapse 250, SignOutSettles 1 SignOutResolved]
       (init (at_path ''/dashboard''))) = [1250]
   \<and> isHandlingUnauthorized
       (run [Failure 1 (http_error 401), Elapse 250, SignOutSettles 1 SignOutResolved,
             Elapse 999, TimerFires] (init (at_path ''/dashboard'')))
   \<and> \<not> isHandlingUnauthorized
       (run [Failure 1 (http_error 401), Elapse 250, SignOutSettles 1 SignOutResolved,
             Elapse 1000, TimerFires] (init (at_path ''/dashboard'')))
   \<and> Elapse 999 \<noteq> TimerFires"
  using reset_scheduled_when_signout_settles
    [of "http_error 401" "init (at_path ''/dashboard'')" 1
        "\<lparr>t_rid = 1, t_error = http_error 401, t_pathname = ''/dashboard''\<rparr>"
        SignOutResolved 1250 "[]" "Elapse 999"]
    reset_scheduled_when_signout_settles
    [of "http_error 401"
        "run [Failure 1 (http_error 401), Elapse 250] (init (at_path ''/dashboard''))" 1
        "\<lparr>t_rid = 1, t_error = http_error 401, t_pathname = ''/dashboard''\<rparr>"
        SignOutResolved 1250 "[]" "Elapse 999"]
    reset_scheduled_when_signout_settles
    [of "http_error 401"
        "run [Failure 1 (http_error 401), Elapse 250, SignOutSettles 1 SignOutResolved,
              Elapse 1000] (init (at_path ''/dashboard''))" 1
        "\<lparr>t_rid = 1, t_error = http_error 401, t_pathname = ''/dashboard''\<rparr>"
        SignOutResolved 1250 "[]" "Elapse 999"]
  by (simp add: model_defs)

subsection \<open>The redirect target\<close>

text \<open>
  Claim C8. The redirect target is to be \<^verbatim>\<open>/login?returnUrl=\<close> followed by the
  URL-encoding of the path and the query string as they were at the start of the 401
  handler. The handler reads only the path there (line 100) and reads
  \<^verbatim>\<open>window.location.search\<close> after the \<^verbatim>\<open>await\<close> (line 122). With no navigation
  in between, a 401 error on \<^verbatim>\<open>/dashboard\<close> with an empty query redirects to
  \<^verbatim>\<open>/login?returnUrl=%2Fdashboard\<close>, as the claim says. When the application moves
  from \<^verbatim>\<open>/dashboard\<close> to \<^verbatim>\<open>/settings?tab=2\<close> while the sign-out is pending, the
  target is built from the old path and the new query string, a location the user never
  was at, and not from the path and query of the start of the handler.
\<close>

theorem return_url_mixes_locations:
  "redirects (run [Failure 1 (http_error 401), SignOutSettles 1 SignOutResolved]
      (init (at_path ''/dashboard''))) = [''/login?returnUrl=%2Fdashboard'']
   \<and> redirects (run [Failure 1 (http_error 401),
                   Navigate \<lparr>pathname = ''/settings'', search = ''?tab=2''\<rparr>,
                   SignOutSettles 1 SignOutResolved] (init (at_path ''/dashboard''))) =
     [''/login?returnUrl=%2Fdashboard%3Ftab%3D2'']
   \<and> ''/login?returnUrl=%2Fdashboard%3Ftab%3D2'' \<noteq>
       ''/login?returnUrl='' @
         encodeURIComponent (pathname (at_path ''/dashboard'') @ search (at_path ''/dashboard''))"
  by (simp add: model_defs)

end
